theory Spec2Isabelle
  imports Main "HOL-Library.AList"
begin

section \<open>JavaScript values\<close>

text \<open>
  The values of type \<open>any\<close> that flow through \<open>src/index.ts\<close>. Numbers are modelled by
  integers (status codes; there is no NaN and no fraction), strings by \<open>string\<close>, objects
  by association lists of their own enumerable properties, with distinct keys, in the
  order of insertion (which is the order \<open>Object.keys\<close> lists them in, keys that read as
  array indices apart).
\<close>

datatype jsval =
    JUndefined
  | JNull
  | JBool bool
  | JNum int
  | JStr string
  | JArr "jsval list"
  | JObj "(string \<times> jsval) list"

text \<open>The truthiness test of \<open>if (v)\<close> and of \<open>v && w\<close>.\<close>

fun truthy :: "jsval \<Rightarrow> bool" where
  "truthy JUndefined = False"
| "truthy JNull = False"
| "truthy (JBool b) = b"
| "truthy (JNum n) = (n \<noteq> 0)"
| "truthy (JStr s) = (s \<noteq> [])"
| "truthy (JArr xs) = True"
| "truthy (JObj kvs) = True"

section \<open>Plain objects as dictionaries\<close>

text \<open>
  The dictionaries of the program (\<open>children\<close>, \<open>methods\<close>, the result of \<open>readValues\<close>)
  are plain objects, as the object literals of the node constructors and of \<open>readValues\<close>
  make them: their prototype is \<open>Object.prototype\<close>. These are the property names of
  \<open>Object.prototype\<close>; each of its members is a function, but \<open>__proto__\<close>, an accessor
  whose getter yields \<open>Object.prototype\<close> itself.
\<close>

definition object_prototype_keys :: "string list" where
  "object_prototype_keys =
     [''constructor'', ''__defineGetter__'', ''__defineSetter__'', ''hasOwnProperty'',
      ''__lookupGetter__'', ''__lookupSetter__'', ''isPrototypeOf'', ''propertyIsEnumerable'',
      ''toString'', ''valueOf'', ''__proto__'', ''toLocaleString'']"

text \<open>
  Reading \<open>obj[key]\<close>: the object's own property if it has one, else the member of
  \<open>Object.prototype\<close> of that name if there is one, else \<open>undefined\<close>.
\<close>

datatype 'a property = Own 'a | FromPrototype string | Undefined

definition get_property :: "(string \<times> 'a) list \<Rightarrow> string \<Rightarrow> 'a property" where
  "get_property obj key =
     (case map_of obj key of
        Some v \<Rightarrow> Own v
      | None \<Rightarrow> if key \<in> set object_prototype_keys then FromPrototype key else Undefined)"

text \<open>
  Writing \<open>obj[key] = v\<close> for a value \<open>v\<close> that is a string or \<open>undefined\<close>: the own
  property is written or created, but for the key \<open>__proto__\<close> on an object that has no
  own property of that name, where the assignment reaches the setter of
  \<open>Object.prototype\<close>, which ignores a value that is neither an object nor \<open>null\<close>.
\<close>

definition set_property :: "(string \<times> jsval) list \<Rightarrow> string \<Rightarrow> jsval \<Rightarrow> (string \<times> jsval) list" where
  "set_property obj key v =
     (if key = ''__proto__'' \<and> map_of obj key = None then obj
      else AList.update key v obj)"

section \<open>Data model (index.ts, lines 5 to 32)\<close>

text \<open>
  The outbound client \<open>makeRequest\<close> (lines 34 to 60) is a collaborator of the router
  and is not modelled.
\<close>

text \<open>
  \<open>interface Request\<close>. The path is optional in the model because \<open>readParts\<close> tests it
  against \<open>null\<close> and \<open>undefined\<close>; \<open>query\<close> is \<open>JUndefined\<close> and \<open>body\<close> is \<open>None\<close> when
  the optional field is absent.
\<close>

record Request =
  "method" :: string
  path :: "string option"
  headers :: "(string \<times> jsval) list"
  query :: jsval
  body :: "string option"

text \<open>\<open>interface Response\<close>.\<close>

record Response =
  statusCode :: int
  headers :: "(string \<times> jsval) list"
  body :: jsval

text \<open>
  \<open>class HttpError extends Error\<close>. The status code is declared a number, but the
  constructor stores whatever it is given (\<open>getError\<close> passes a field of an arbitrary
  error), so the field holds a \<open>jsval\<close>.
\<close>

record HttpError =
  statusCode :: jsval
  message :: string
  body :: jsval

text \<open>
  The constructor \<open>new HttpError(statusCode, message, body = null)\<close>: \<open>super(message)\<close>
  leaves the message of \<open>Error.prototype\<close>, the empty string, when the message is
  \<open>undefined\<close>, and the default parameter replaces an \<open>undefined\<close> body by \<open>null\<close>.
\<close>

definition newHttpError :: "jsval \<Rightarrow> string option \<Rightarrow> jsval \<Rightarrow> HttpError" where
  "newHttpError code msg b =
     \<lparr>HttpError.statusCode = code,
      HttpError.message = (case msg of None \<Rightarrow> [] | Some m \<Rightarrow> m),
      HttpError.body = (if b = JUndefined then JNull else b)\<rparr>"

text \<open>
  A thrown or rejected value: \<open>null\<close> or \<open>undefined\<close>, an instance of \<open>HttpError\<close>, or
  any other value, given by what reading its properties \<open>statusCode\<close>, \<open>message\<close> and
  \<open>body\<close> yields (\<open>JUndefined\<close> and \<open>None\<close> for a property it does not have; the
  message of an error is a string, as \<open>Error\<close> declares it).
\<close>

datatype thrown =
    Nullish
  | IsHttpError HttpError
  | OtherValue jsval "string option" jsval

text \<open>
  The \<open>TypeError\<close> of the engine: for a property read on \<open>null\<close> or \<open>undefined\<close>, and
  for a call of a value that is not a function. The wording of its message is the
  engine's: the message below stands for it, and no theorem states it.
\<close>

definition TypeError :: thrown where
  "TypeError = OtherValue JUndefined (Some ''Cannot read properties of null or undefined'') JUndefined"

text \<open>
  A promise is pending forever, fulfilled or rejected; a call either throws or returns.
  The authentication accessor \<open>() => Promise<U>\<close> is given by the outcome of calling it.
\<close>

datatype 'a promise = Pending | Fulfilled 'a | Rejected thrown

datatype 'a outcome = Throws thrown | Returns 'a

type_synonym 'u accessor = "'u promise outcome"

type_synonym 'u RequestHandler = "Request \<Rightarrow> 'u accessor \<Rightarrow> Response promise outcome"

text \<open>
  \<open>interface ServiceNode<U>\<close>. \<open>children\<close> is \<open>None\<close> when the field is \<open>null\<close> or
  \<open>undefined\<close>, the case \<open>invoke\<close> tests for.

  A lookup in \<open>children\<close> can also yield a member of \<open>Object.prototype\<close>, which the code
  then treats as a node: \<open>Inherited name\<close> is that value. It has no field \<open>children\<close>
  (reading it gives \<open>undefined\<close>, hence \<open>None\<close>) and no field \<open>methods\<close>; the selector
  \<open>methods\<close> is the empty list there, and \<open>dispatch\<close> tells the two cases apart.
\<close>

datatype 'u ServiceNode =
    ServiceNode (methods: "(string \<times> 'u RequestHandler) list")
                (children: "(string \<times> 'u ServiceNode) list option")
  | Inherited string
where
  "methods (Inherited name) = []"
| "children (Inherited name) = None"

section \<open>Node constructors (lines 62 to 76)\<close>

definition json :: "jsval \<Rightarrow> (string \<times> 'u ServiceNode) list \<Rightarrow> 'u ServiceNode" where
  "json val cs =
     ServiceNode
       [(''GET'', \<lambda>rq auth. Returns (Fulfilled
           \<lparr>Response.statusCode = 200, Response.headers = [], Response.body = val\<rparr>))]
       (Some cs)"

definition httpNode ::
  "(string \<times> 'u RequestHandler) list \<Rightarrow> (string \<times> 'u ServiceNode) list \<Rightarrow> 'u ServiceNode" where
  "httpNode ms cs = ServiceNode ms (Some cs)"

definition directory :: "(string \<times> 'u ServiceNode) list \<Rightarrow> 'u ServiceNode" where
  "directory cs =
     httpNode
       [(''GET'', \<lambda>rq auth. Returns (Fulfilled
           \<lparr>Response.statusCode = 200, Response.headers = [],
            Response.body = JStr ''directory''\<rparr>))]
       cs"

definition httpPost :: "'u RequestHandler \<Rightarrow> 'u ServiceNode" where
  "httpPost handler = httpNode [(''POST'', handler)] []"

definition httpGet :: "'u RequestHandler \<Rightarrow> 'u ServiceNode" where
  "httpGet handler = httpNode [(''GET'', handler)] []"

definition httpPut :: "'u RequestHandler \<Rightarrow> 'u ServiceNode" where
  "httpPut handler = httpNode [(''PUT'', handler)] []"

section \<open>String and array primitives\<close>

text \<open>\<open>String.prototype.split\<close> with a separator of one character.\<close>

fun split_str :: "char \<Rightarrow> string \<Rightarrow> string list" where
  "split_str sep [] = [[]]"
| "split_str sep (c # cs) =
     (if c = sep then [] # split_str sep cs
      else (case split_str sep cs of [] \<Rightarrow> [[c]] | p # ps \<Rightarrow> (c # p) # ps))"

text \<open>\<open>Array.prototype.join\<close>; an array turned into a string is joined by commas.\<close>

fun join_str :: "string \<Rightarrow> string list \<Rightarrow> string" where
  "join_str sep [] = []"
| "join_str sep [x] = x"
| "join_str sep (x # y # ys) = x @ sep @ join_str sep (y # ys)"

text \<open>\<open>str.indexOf(c)\<close>, \<open>-1\<close> when the character does not occur.\<close>

fun indexOf :: "string \<Rightarrow> char \<Rightarrow> int" where
  "indexOf [] c = - 1"
| "indexOf (x # xs) c =
     (if x = c then 0 else (let k = indexOf xs c in if k = - 1 then - 1 else k + 1))"

text \<open>\<open>str.substr(start)\<close> and \<open>str.substr(start, len)\<close> for arguments that are not negative.\<close>

definition substr_from :: "string \<Rightarrow> nat \<Rightarrow> string" where
  "substr_from s start = drop start s"

definition substr :: "string \<Rightarrow> nat \<Rightarrow> nat \<Rightarrow> string" where
  "substr s start len = take len (drop start s)"

text \<open>
  Reading \<open>xs[i]\<close> from an array of strings: out of range the value is \<open>undefined\<close>, which
  as a property key or inside a template literal is the string \<open>"undefined"\<close>.
\<close>

definition elem_val :: "string list \<Rightarrow> nat \<Rightarrow> jsval" where
  "elem_val xs i = (if i < length xs then JStr (xs ! i) else JUndefined)"

definition elem_key :: "string list \<Rightarrow> nat \<Rightarrow> string" where
  "elem_key xs i = (if i < length xs then xs ! i else ''undefined'')"

section \<open>Tree resolver (lines 78 to 95)\<close>

definition invoke :: "'u ServiceNode \<Rightarrow> string \<Rightarrow> thrown + 'u ServiceNode" where
  "invoke node tag =
     (case children node of
        None \<Rightarrow>
          Inl (IsHttpError (newHttpError (JNum 404)
                 (Some ''Illegal node parent. Missing children.'') JUndefined))
      | Some cs \<Rightarrow>
          (case get_property cs tag of
             Undefined \<Rightarrow>
               Inl (IsHttpError (newHttpError (JNum 404)
                      (Some (''Resource not found: '' @ tag @ ''. Did you mean ''
                             @ join_str '','' (map fst cs) @ ''?''))
                      JUndefined))
           | Own fn \<Rightarrow> Inr fn
           | FromPrototype name \<Rightarrow> Inr (Inherited name)))"

function getQueryResult :: "'u ServiceNode \<Rightarrow> string list \<Rightarrow> nat \<Rightarrow> thrown + 'u ServiceNode" where
  "getQueryResult node paths index =
     (if index = length paths then Inr node
      else (case invoke node (elem_key paths index) of
              Inl error \<Rightarrow> Inl error
            | Inr result \<Rightarrow> getQueryResult result paths (index + 1)))"
  by pat_completeness auto
termination
proof (relation "measure (\<lambda>(node, paths, index). size node)")
  show "wf (measure (\<lambda>(node :: 'u ServiceNode, paths :: string list, index :: nat). size node))"
    by simp
next
  fix node :: "'u ServiceNode" and paths :: "string list" and index :: nat and result
  assume "invoke node (elem_key paths index) = Inr result"
  then obtain cs where cs: "children node = Some cs"
    and look: "map_of cs (elem_key paths index) = Some result
               \<or> (\<exists>name. result = Inherited name)"
    by (auto simp: invoke_def get_property_def split: option.splits if_splits)
  have mem: "size c < Suc (size_list (size_prod (\<lambda>_. 0) size) ds)"
    if "(k, c) \<in> set ds" for k and c :: "'u ServiceNode" and ds
    using that by (induction ds) auto
  from look have "size result < size node"
  proof
    assume "map_of cs (elem_key paths index) = Some result"
    then have "(elem_key paths index, result) \<in> set cs"
      by (rule map_of_SomeD)
    from mem [OF this] cs show ?thesis
      by (cases node) simp_all
  next
    assume "\<exists>name. result = Inherited name"
    with cs show ?thesis
      by (cases node) auto
  qed
  then show "((result, paths, index + 1), (node, paths, index))
               \<in> measure (\<lambda>(node, paths, index). size node)"
    by simp
qed

declare getQueryResult.simps [simp del]

section \<open>Leaf parsers (lines 97 to 138)\<close>

fun readValues_loop :: "string list \<Rightarrow> (string \<times> jsval) list \<Rightarrow> (string \<times> jsval) list" where
  "readValues_loop [] vals = vals"
| "readValues_loop (part # parts) vals =
     (let keys = split_str CHR ''='' part
      in readValues_loop parts (set_property vals (elem_key keys 0) (elem_val keys 1)))"

definition readValues :: "string \<Rightarrow> (string \<times> jsval) list" where
  "readValues str =
     (if length str = 0 then []
      else readValues_loop (split_str CHR ''&'' str) [])"

text \<open>
  \<open>JSON.parse\<close> belongs to the runtime, not to the repository: \<open>getRequestData\<close> takes it
  as a parameter, a function that returns the decoded value or throws.
\<close>

definition getRequestData :: "(string \<Rightarrow> thrown + jsval) \<Rightarrow> Request \<Rightarrow> thrown + jsval" where
  "getRequestData JSON_parse request =
     (if Request.method request = ''GET'' \<or> Request.method request = ''DELETE''
      then Inr (Request.query request)
      else (case Request.body request of
              None \<Rightarrow> Inr JUndefined
            | Some b \<Rightarrow>
                if \<not> truthy (JStr b) then Inr (JStr b)
                else if \<not> length b > 0 then Inr (JBool False)
                else JSON_parse b))"

text \<open>The result of \<open>parsePath\<close>; the query is \<open>None\<close> for \<open>query: null\<close>.\<close>

record ParsedPath =
  path :: string
  query :: "(string \<times> jsval) list option"

definition parsePath :: "string \<Rightarrow> ParsedPath" where
  "parsePath str =
     (let k = indexOf str CHR ''?''
      in if k = - 1 then \<lparr>ParsedPath.path = str, ParsedPath.query = None\<rparr>
         else \<lparr>ParsedPath.path = substr str 0 (nat k),
               ParsedPath.query = Some (readValues (substr_from str (nat (k + 1))))\<rparr>)"

definition readParts :: "string option \<Rightarrow> string list" where
  "readParts p =
     (case p of
        None \<Rightarrow> []
      | Some s \<Rightarrow> if length s = 0 then [] else split_str CHR ''/'' (substr_from s 1))"

section \<open>Fixed headers and the error normaliser (lines 140 to 160)\<close>

definition options :: "(string \<times> jsval) list" where
  "options =
     [(''Access-Control-Allow-Origin'', JStr ''*''),
      (''Access-Control-Allow-Headers'', JStr ''Authorization, Content-Type, Auth-Provider''),
      (''Access-Control-Allow-Methods'', JStr ''OPTIONS, GET, POST, PUT''),
      (''Content-Type'', JStr ''application/json'')]"

text \<open>
  \<open>getError\<close>. Reading \<open>e.statusCode\<close> from \<open>null\<close> or \<open>undefined\<close> throws, so the
  function itself can throw (\<open>Inl\<close>). The console output of the last branch is not
  modelled.
\<close>

definition getError :: "thrown \<Rightarrow> thrown + HttpError" where
  "getError error =
     (case error of
        IsHttpError e \<Rightarrow> Inr e
      | Nullish \<Rightarrow> Inl TypeError
      | OtherValue code msg b \<Rightarrow>
          if truthy code then Inr (newHttpError code msg b)
          else Inr (newHttpError (JNum 500) msg JUndefined))"

section \<open>Dispatch pipeline (lines 162 to 194)\<close>

text \<open>
  The third argument of the response callback: the object literal
  \<open>{request, message, body}\<close> of the error path, or any other value.
\<close>

datatype cb_body = ErrorBody Request string jsval | Body jsval

type_synonym cb_call = "jsval \<times> (string \<times> jsval) list \<times> cb_body"

text \<open>
  The response callback is an argument of the pipeline and, like every call, may throw:
  it is given by the value it throws (if any) at each triple of arguments. What a piece
  of the pipeline does is the list of callback invocations it makes, in order, and the
  exception it ends with (if any).
\<close>

type_synonym callback = "cb_call \<Rightarrow> thrown option"

type_synonym effect = "cb_call list \<times> thrown option"

definition invoke_callback :: "callback \<Rightarrow> cb_call \<Rightarrow> effect" where
  "invoke_callback callback c = ([c], callback c)"

text \<open>\<open>try { body } catch (error) { handler(error) }\<close>, and \<open>p.catch(handler)\<close> alike.\<close>

definition try_catch :: "effect \<Rightarrow> (thrown \<Rightarrow> effect) \<Rightarrow> effect" where
  "try_catch b handler =
     (case b of
        (cs, None) \<Rightarrow> (cs, None)
      | (cs, Some error) \<Rightarrow> (case handler error of (cs', r) \<Rightarrow> (cs @ cs', r)))"

text \<open>
  The object spread \<open>{...base, ...over}\<close>: the entries of \<open>over\<close> are written into the
  copy of \<open>base\<close> one by one, replacing the value of a key that is there and appending a
  new key.
\<close>

definition spread :: "(string \<times> jsval) list \<Rightarrow> (string \<times> jsval) list \<Rightarrow> (string \<times> jsval) list" where
  "spread base over = foldl (\<lambda>acc (k, v). AList.update k v acc) base over"

definition returnError :: "Request \<Rightarrow> callback \<Rightarrow> thrown \<Rightarrow> effect" where
  "returnError request callback error =
     (case getError error of
        Inl t \<Rightarrow> ([], Some t)
      | Inr httpError \<Rightarrow>
          invoke_callback callback
            (HttpError.statusCode httpError, options,
             ErrorBody request (HttpError.message httpError) (HttpError.body httpError)))"

definition returnResponse :: "callback \<Rightarrow> Response \<Rightarrow> effect" where
  "returnResponse callback response =
     invoke_callback callback
       (JNum 200, spread (spread [] options) (Response.headers response), Body (Response.body response))"

text \<open>
  \<open>promise.then(onFulfilled).catch(onRejected)\<close>: nothing happens while the promise is
  pending; an exception of \<open>onFulfilled\<close> rejects the promise that \<open>catch\<close> listens to.
  The chain runs after \<open>handleRequest\<close> has returned, so an exception it ends with does
  not reach the \<open>try\<close> block: only its callback invocations are kept.
\<close>

definition then_catch :: "'a promise \<Rightarrow> ('a \<Rightarrow> effect) \<Rightarrow> (thrown \<Rightarrow> effect) \<Rightarrow> effect" where
  "then_catch promise onFulfilled onRejected =
     (case promise of
        Pending \<Rightarrow> ([], None)
      | Fulfilled v \<Rightarrow> (fst (try_catch (onFulfilled v) onRejected), None)
      | Rejected error \<Rightarrow> (fst (onRejected error), None))"

text \<open>
  The part of the \<open>try\<close> block after resolution (lines 181 to 190): method lookup and
  the three branches.

  When the resolved value is a member of \<open>Object.prototype\<close>, \<open>node.methods\<close> is
  \<open>undefined\<close> and reading \<open>node.methods[request.method]\<close> throws a \<open>TypeError\<close>. When the
  verb names a member of \<open>Object.prototype\<close> and the node has no handler of its own for
  it, the lookup yields that member; it is truthy, so it is called as the handler, with
  no receiver. Every one of the twelve members ends that call, or the \<open>.then\<close> on what it
  returns, in a \<open>TypeError\<close> thrown inside the \<open>try\<close> block: \<open>Object\<close> returns the request
  and \<open>toString\<close> a string, neither of which has a \<open>then\<close>; \<open>__proto__\<close> is not a
  function; the others throw on their missing receiver.
\<close>

definition dispatch :: "'u ServiceNode \<Rightarrow> 'u accessor \<Rightarrow> Request \<Rightarrow> callback \<Rightarrow> effect" where
  "dispatch node auth request callback =
     (case node of
        Inherited name \<Rightarrow> ([], Some TypeError)
      | ServiceNode ms cs \<Rightarrow>
          (case get_property ms (Request.method request) of
             Own handler \<Rightarrow>
               (case handler request auth of
                  Throws error \<Rightarrow> ([], Some error)
                | Returns promise \<Rightarrow>
                    then_catch promise (returnResponse callback) (returnError request callback))
           | FromPrototype name \<Rightarrow> ([], Some TypeError)
           | Undefined \<Rightarrow>
               if Request.method request = ''OPTIONS''
               then invoke_callback callback (JNum 200, options, Body (JObj []))
               else invoke_callback callback (JNum 404, options, Body (JObj []))))"

text \<open>
  \<open>handleRequest\<close> returns nothing; its result in the model is the list of the
  invocations of the response callback that the call causes, at once or once the
  handler's promise has settled.
\<close>

definition handleRequest ::
  "'u ServiceNode \<Rightarrow> 'u accessor \<Rightarrow> Request \<Rightarrow> callback \<Rightarrow> cb_call list" where
  "handleRequest root auth request callback =
     fst (try_catch
            (let paths = readParts (Request.path request)
             in case getQueryResult root paths 0 of
                  Inl error \<Rightarrow> ([], Some error)
                | Inr node \<Rightarrow> dispatch node auth request callback)
            (returnError request callback))"

section \<open>Authentication wrapper (lines 196 to 203)\<close>

text \<open>
  The wrapped handler is given by the outcome of calling it: it throws, or returns a
  promise (a value that is not a promise is awaited like a fulfilled one). The model of
  \<open>authenticate\<close> returns the invocations of the wrapped handler it makes, with their
  arguments, beside the promise of the \<open>async\<close> function.
\<close>

definition authenticate ::
  "('u \<Rightarrow> Request \<Rightarrow> jsval promise outcome) \<Rightarrow> Request \<Rightarrow> 'u accessor
     \<Rightarrow> ('u \<times> Request) list \<times> Response promise" where
  "authenticate handler request auth =
     (case auth of
        Throws error \<Rightarrow> ([], Rejected error)
      | Returns Pending \<Rightarrow> ([], Pending)
      | Returns (Rejected error) \<Rightarrow> ([], Rejected error)
      | Returns (Fulfilled user) \<Rightarrow>
          (case handler user request of
             Throws error \<Rightarrow> ([(user, request)], Rejected error)
           | Returns Pending \<Rightarrow> ([(user, request)], Pending)
           | Returns (Rejected error) \<Rightarrow> ([(user, request)], Rejected error)
           | Returns (Fulfilled result) \<Rightarrow>
               ([(user, request)],
                Fulfilled \<lparr>Response.statusCode = 200, Response.headers = [],
                           Response.body = result\<rparr>)))"

text \<open>The wrapper as a \<open>RequestHandler\<close> of a service node.\<close>

definition authenticated :: "('u \<Rightarrow> Request \<Rightarrow> jsval promise outcome) \<Rightarrow> 'u RequestHandler" where
  "authenticated handler = (\<lambda>request auth. Returns (snd (authenticate handler request auth)))"


section \<open>The specification's reading of the resolver and of a query string\<close>

text \<open>
  Resolution as the specification words it: consume the segments one at a time, each step
  a lookup of the segment among the children of the node reached so far.
\<close>

fun resolve_spec :: "'u ServiceNode \<Rightarrow> string list \<Rightarrow> 'u ServiceNode option" where
  "resolve_spec node [] = Some node"
| "resolve_spec node (seg # segs) =
     (case children node of
        None \<Rightarrow> None
      | Some cs \<Rightarrow> (case map_of cs seg of None \<Rightarrow> None | Some child \<Rightarrow> resolve_spec child segs))"

text \<open>The two errors of the resolver, written out as values.\<close>

definition notFound :: "string \<Rightarrow> string list \<Rightarrow> thrown" where
  "notFound seg keys =
     IsHttpError
       \<lparr>HttpError.statusCode = JNum 404,
        HttpError.message =
          ''Resource not found: '' @ seg @ ''. Did you mean '' @ join_str '','' keys @ ''?'',
        HttpError.body = JNull\<rparr>"

definition missingChildren :: thrown where
  "missingChildren =
     IsHttpError
       \<lparr>HttpError.statusCode = JNum 404,
        HttpError.message = ''Illegal node parent. Missing children.'',
        HttpError.body = JNull\<rparr>"

text \<open>
  A query string written from a list of key and value pairs, \<open>k1=v1&k2=v2&...\<close>; a key or
  value is plain when it contains neither separator.
\<close>

definition render_pair :: "string \<times> string \<Rightarrow> string" where
  "render_pair kv = fst kv @ ''='' @ snd kv"

definition render_query :: "(string \<times> string) list \<Rightarrow> string" where
  "render_query pairs = join_str ''&'' (map render_pair pairs)"

definition plain :: "string \<Rightarrow> bool" where
  "plain s = (CHR ''&'' \<notin> set s \<and> CHR ''='' \<notin> set s)"

text \<open>
  A handler call settles when it throws or its promise is fulfilled or rejected, with a
  reason other than \<open>null\<close> or \<open>undefined\<close>.
\<close>

definition settles :: "Response promise outcome \<Rightarrow> bool" where
  "settles r =
     (case r of
        Throws error \<Rightarrow> error \<noteq> Nullish
      | Returns Pending \<Rightarrow> False
      | Returns (Fulfilled response) \<Rightarrow> True
      | Returns (Rejected error) \<Rightarrow> error \<noteq> Nullish)"

section \<open>Example inputs\<close>

definition request_of :: "string \<Rightarrow> string \<Rightarrow> Request" where
  "request_of m p =
     \<lparr>Request.method = m, Request.path = Some p, Request.headers = [],
      Request.query = JUndefined, Request.body = None\<rparr>"

definition never_throws :: callback where
  "never_throws = (\<lambda>c. None)"

definition boom :: thrown where
  "boom = OtherValue JUndefined (Some ''boom'') JUndefined"

definition foo_tree :: "unit ServiceNode" where
  "foo_tree = directory [(''foo'', json (JNum 1) [])]"

definition created_tree :: "unit ServiceNode" where
  "created_tree =
     directory
       [(''foo'', httpPost (\<lambda>request auth. Returns (Fulfilled
            \<lparr>Response.statusCode = 201,
             Response.headers = [(''Content-Type'', JStr ''text/plain''), (''X-Id'', JStr ''7'')],
             Response.body = JStr ''made''\<rparr>)))]"

definition rejecting_tree :: "unit ServiceNode" where
  "rejecting_tree = httpGet (\<lambda>request auth. Returns (Rejected Nullish))"

section \<open>Properties of the string primitives\<close>

lemma split_str_not_Nil: "split_str sep s \<noteq> []"
  by (induction s) (auto split: list.splits)

lemma join_split_str: "join_str [sep] (split_str sep s) = s"
proof (induction s)
  case Nil
  show ?case by simp
next
  case (Cons c cs)
  obtain p ps where ps: "split_str sep cs = p # ps"
    using split_str_not_Nil [of sep cs] by (cases "split_str sep cs") auto
  with Cons show ?case by (cases ps) auto
qed

lemma split_str_no_sep: "seg \<in> set (split_str sep s) \<Longrightarrow> sep \<notin> set seg"
  by (induction s arbitrary: seg) (auto split: if_splits list.splits)

lemma split_str_prefix:
  "sep \<notin> set a \<Longrightarrow> split_str sep (a @ sep # rest) = a # split_str sep rest"
  by (induction a) auto

lemma split_str_whole: "sep \<notin> set a \<Longrightarrow> split_str sep a = [a]"
  by (induction a) auto

lemma split_join_str:
  "xs \<noteq> [] \<Longrightarrow> \<forall>x \<in> set xs. sep \<notin> set x \<Longrightarrow> split_str sep (join_str [sep] xs) = xs"
proof (induction xs rule: induct_list012)
  case 1
  then show ?case by simp
next
  case (2 x)
  then show ?case by (simp add: split_str_whole)
next
  case (3 x y ys)
  then show ?case by (simp add: split_str_prefix)
qed

lemma set_join_str: "set (join_str sep xs) \<subseteq> set sep \<union> \<Union> (set ` set xs)"
  by (induction sep xs rule: join_str.induct) auto

lemma indexOf_absent: "c \<notin> set s \<Longrightarrow> indexOf s c = - 1"
  by (induction s) auto

lemma indexOf_first: "c \<notin> set a \<Longrightarrow> indexOf (a @ c # rest) c = int (length a)"
  by (induction a) (auto simp: Let_def)

section \<open>Properties of the leaf parsers\<close>

lemma update_fresh: "k \<notin> fst ` set al \<Longrightarrow> AList.update k v al = al @ [(k, v)]"
  by (induction al) auto

lemma split_render_pair:
  "plain k \<Longrightarrow> plain v \<Longrightarrow> split_str CHR ''='' (render_pair (k, v)) = [k, v]"
  by (simp add: render_pair_def plain_def split_str_prefix split_str_whole)

lemma set_property_other:
  "key \<noteq> ''__proto__'' \<Longrightarrow> set_property obj key v = AList.update key v obj"
  by (simp add: set_property_def)

lemma set_property_proto:
  "map_of obj ''__proto__'' = None \<Longrightarrow> set_property obj ''__proto__'' v = obj"
  by (simp add: set_property_def)

lemma set_property_fresh:
  "k \<noteq> ''__proto__'' \<Longrightarrow> k \<notin> fst ` set obj \<Longrightarrow> set_property obj k v = obj @ [(k, v)]"
  by (simp add: set_property_def update_fresh)

lemma readValues_loop_pairs:
  "\<forall>(k, v) \<in> set pairs. plain k \<and> plain v \<and> k \<noteq> ''__proto__'' \<Longrightarrow>
   distinct (map fst pairs) \<Longrightarrow>
   fst ` set acc \<inter> fst ` set pairs = {} \<Longrightarrow>
   readValues_loop (map render_pair pairs) acc = acc @ map (\<lambda>(k, v). (k, JStr v)) pairs"
proof (induction pairs arbitrary: acc)
  case Nil
  show ?case by simp
next
  case (Cons kv pairs)
  obtain k v where kv: "kv = (k, v)" by (cases kv)
  from Cons.prems kv have pl: "plain k" "plain v" "k \<noteq> ''__proto__''" by auto
  from Cons.prems kv have fresh: "k \<notin> fst ` set acc" by auto
  have step: "readValues_loop (map render_pair (kv # pairs)) acc
        = readValues_loop (map render_pair pairs) (acc @ [(k, JStr v)])"
    using pl fresh by (simp add: kv split_render_pair elem_key_def elem_val_def set_property_fresh)
  have "fst ` set (acc @ [(k, JStr v)]) \<inter> fst ` set pairs = {}"
    using Cons.prems kv by auto
  with Cons.IH [of "acc @ [(k, JStr v)]"] Cons.prems
  have "readValues_loop (map render_pair pairs) (acc @ [(k, JStr v)])
        = (acc @ [(k, JStr v)]) @ map (\<lambda>(k, v). (k, JStr v)) pairs"
    by simp
  with step show ?case by (simp add: kv)
qed

lemma render_pair_no_amp: "plain k \<Longrightarrow> plain v \<Longrightarrow> CHR ''&'' \<notin> set (render_pair (k, v))"
  by (simp add: render_pair_def plain_def)

lemma render_query_not_Nil: "pairs \<noteq> [] \<Longrightarrow> render_query pairs \<noteq> []"
  by (induction pairs rule: induct_list012) (auto simp: render_query_def render_pair_def)

lemma readValues_render_query:
  assumes "\<forall>(k, v) \<in> set pairs. plain k \<and> plain v \<and> k \<noteq> ''__proto__''"
    and "distinct (map fst pairs)"
  shows "readValues (render_query pairs) = map (\<lambda>(k, v). (k, JStr v)) pairs"
proof (cases "pairs = []")
  case True
  then show ?thesis by (simp add: readValues_def render_query_def)
next
  case False
  have "\<forall>x \<in> set (map render_pair pairs). CHR ''&'' \<notin> set x"
    using assms(1) render_pair_no_amp by fastforce
  with False have "split_str CHR ''&'' (render_query pairs) = map render_pair pairs"
    unfolding render_query_def using split_join_str [of "map render_pair pairs" "CHR ''&''"] by simp
  with False assms show ?thesis
    using readValues_loop_pairs [of pairs "[]"]
    by (simp add: readValues_def render_query_not_Nil)
qed

lemma parsePath_no_query:
  "CHR ''?'' \<notin> set str \<Longrightarrow>
   parsePath str = \<lparr>ParsedPath.path = str, ParsedPath.query = None\<rparr>"
  by (simp add: parsePath_def indexOf_absent)

lemma parsePath_query:
  "CHR ''?'' \<notin> set a \<Longrightarrow>
   parsePath (a @ CHR ''?'' # q) = \<lparr>ParsedPath.path = a, ParsedPath.query = Some (readValues q)\<rparr>"
  by (simp add: parsePath_def indexOf_first substr_def substr_from_def nat_add_distrib)

lemma readParts_Cons: "readParts (Some (c # rest)) = split_str CHR ''/'' rest"
  by (simp add: readParts_def substr_from_def)

section \<open>Properties of the resolver\<close>

lemma invoke_cases:
  "invoke node tag =
     (case children node of
        None \<Rightarrow> Inl missingChildren
      | Some cs \<Rightarrow>
          (case get_property cs tag of
             Undefined \<Rightarrow> Inl (notFound tag (map fst cs))
           | Own fn \<Rightarrow> Inr fn
           | FromPrototype name \<Rightarrow> Inr (Inherited name)))"
  by (simp add: invoke_def missingChildren_def notFound_def newHttpError_def
        split: option.splits property.splits)

lemma get_property_own: "map_of obj key = Some v \<Longrightarrow> get_property obj key = Own v"
  by (simp add: get_property_def)

lemma get_property_absent:
  "map_of obj key = None \<Longrightarrow> key \<notin> set object_prototype_keys \<Longrightarrow>
   get_property obj key = Undefined"
  by (simp add: get_property_def)

lemma get_property_inherited:
  "map_of obj key = None \<Longrightarrow> key \<in> set object_prototype_keys \<Longrightarrow>
   get_property obj key = FromPrototype key"
  by (simp add: get_property_def)

lemma getQueryResult_end: "getQueryResult node paths (length paths) = Inr node"
  by (simp add: getQueryResult.simps)

lemma getQueryResult_step:
  "getQueryResult node (pre @ s # ss) (length pre) =
     (case invoke node s of
        Inl e \<Rightarrow> Inl e
      | Inr r \<Rightarrow> getQueryResult r ((pre @ [s]) @ ss) (length (pre @ [s])))"
  by (subst getQueryResult.simps) (simp add: elem_key_def nth_append split: sum.splits)

text \<open>
  Where the specification's descent reaches a node, so does \<open>getQueryResult\<close>; the
  converse holds for segments that are not names of \<open>Object.prototype\<close>.
\<close>

lemma getQueryResult_walk:
  "resolve_spec node segs = Some n \<Longrightarrow> getQueryResult node (pre @ segs) (length pre) = Inr n"
proof (induction segs arbitrary: node pre)
  case Nil
  then show ?case using getQueryResult_end [of node pre] by auto
next
  case (Cons s ss)
  from Cons.prems obtain cs child where
    cs: "children node = Some cs" "map_of cs s = Some child" "resolve_spec child ss = Some n"
    by (auto split: option.splits)
  from Cons.IH [OF cs(3), of "pre @ [s]"] cs(1,2) show ?case
    by (simp only: getQueryResult_step invoke_cases) (simp add: get_property_own)
qed

lemma getQueryResult_walk_back:
  "set segs \<inter> set object_prototype_keys = {} \<Longrightarrow>
   getQueryResult node (pre @ segs) (length pre) = Inr n \<Longrightarrow> resolve_spec node segs = Some n"
proof (induction segs arbitrary: node pre)
  case Nil
  then show ?case using getQueryResult_end [of node pre] by auto
next
  case (Cons s ss)
  from Cons.prems(1) have s: "s \<notin> set object_prototype_keys"
    and ss: "set ss \<inter> set object_prototype_keys = {}" by auto
  from Cons.prems(2) obtain r where r: "invoke node s = Inr r"
    and g: "getQueryResult r ((pre @ [s]) @ ss) (length (pre @ [s])) = Inr n"
    by (simp only: getQueryResult_step split: sum.splits) auto
  from r s obtain cs where cs: "children node = Some cs" "map_of cs s = Some r"
    by (auto simp: invoke_cases get_property_def split: option.splits if_splits)
  from Cons.IH [OF ss g] cs show ?case by simp
qed

lemma getQueryResult_fail:
  "resolve_spec node a = Some cur \<Longrightarrow> invoke cur s = Inl e \<Longrightarrow>
   getQueryResult node (pre @ a @ s # b) (length pre) = Inl e"
proof (induction a arbitrary: node pre)
  case Nil
  then show ?case by (simp add: getQueryResult_step)
next
  case (Cons x xs)
  from Cons.prems(1) obtain cs child where
    cs: "children node = Some cs" "map_of cs x = Some child" "resolve_spec child xs = Some cur"
    by (auto split: option.splits)
  from Cons.IH [OF cs(3) Cons.prems(2), of "pre @ [x]"] cs(1,2)
  show ?case
    using getQueryResult_step [of node pre x "xs @ s # b"]
    by (simp add: invoke_cases get_property_own)
qed

lemma getQueryResult_error:
  "getQueryResult node paths index = Inl error \<Longrightarrow> error \<noteq> Nullish"
proof (induction node paths index rule: getQueryResult.induct)
  case (1 node paths index)
  show ?case
  proof (cases "invoke node (elem_key paths index)")
    case (Inl e)
    then have "e \<noteq> Nullish"
      by (auto simp: invoke_cases missingChildren_def notFound_def
            split: option.splits property.splits)
    with "1.prems" Inl show ?thesis
      by (subst (asm) getQueryResult.simps) (simp split: if_splits)
  next
    case (Inr result)
    with "1.prems" have "index \<noteq> length paths"
      "getQueryResult result paths (index + 1) = Inl error"
      by (subst (asm) getQueryResult.simps, simp split: if_splits)+
    with "1.IH" Inr show ?thesis by simp
  qed
qed

section \<open>Properties of the pipeline\<close>

lemma handleRequest_unfold:
  "handleRequest root auth request callback =
     fst (try_catch
            (case getQueryResult root (readParts (Request.path request)) 0 of
               Inl error \<Rightarrow> ([], Some error)
             | Inr node \<Rightarrow> dispatch node auth request callback)
            (returnError request callback))"
  by (simp add: handleRequest_def)

lemma map_of_spread:
  "distinct (map fst over) \<Longrightarrow> map_of (spread base over) = map_of base ++ map_of over"
proof (induction over arbitrary: base)
  case Nil
  show ?case by (simp add: spread_def)
next
  case (Cons kv over)
  obtain k v where kv: "kv = (k, v)" by (cases kv)
  from Cons.prems kv have d: "distinct (map fst over)" and nk: "k \<notin> fst ` set over" by auto
  have "spread base (kv # over) = spread (AList.update k v base) over"
    by (simp add: spread_def kv)
  also have "map_of \<dots> = map_of (AList.update k v base) ++ map_of over"
    by (rule Cons.IH [OF d])
  also have "\<dots> = (map_of base)(k \<mapsto> v) ++ map_of over"
    by (simp add: update_conv')
  also have "\<dots> = map_of base ++ map_of (kv # over)"
  proof (rule ext)
    fix x
    from nk have "map_of over k = None" by (simp add: map_of_eq_None_iff)
    then show "((map_of base)(k \<mapsto> v) ++ map_of over) x = (map_of base ++ map_of (kv # over)) x"
      by (auto simp: kv map_add_def split: option.splits)
  qed
  finally show ?case .
qed

lemma spread_Nil:
  assumes "distinct (map fst base)"
  shows "spread [] base = base"
proof -
  have "spread acc kvs = acc @ kvs"
    if "fst ` set acc \<inter> fst ` set kvs = {}" "distinct (map fst kvs)" for acc kvs
    using that
  proof (induction kvs arbitrary: acc)
    case Nil
    show ?case by (simp add: spread_def)
  next
    case (Cons kv kvs)
    obtain k v where kv: "kv = (k, v)" by (cases kv)
    from Cons.prems kv have "k \<notin> fst ` set acc" by auto
    then have u: "AList.update k v acc = acc @ [(k, v)]" by (rule update_fresh)
    have "spread acc (kv # kvs) = spread (acc @ [(k, v)]) kvs"
      by (simp add: spread_def kv u)
    also have "\<dots> = (acc @ [(k, v)]) @ kvs"
      using Cons.prems kv by (intro Cons.IH) auto
    finally show ?case by (simp add: kv)
  qed
  from this [of "[]" base] assms show ?thesis by simp
qed

lemma spread_options: "spread [] options = options"
  by (rule spread_Nil) (simp add: options_def)

lemma dispatch_own:
  "map_of (methods node) (Request.method request) = Some handler \<Longrightarrow>
   dispatch node auth request callback =
     (case handler request auth of
        Throws error \<Rightarrow> ([], Some error)
      | Returns promise \<Rightarrow>
          then_catch promise (returnResponse callback) (returnError request callback))"
  by (cases node) (simp_all add: dispatch_def get_property_def)

lemma dispatch_not_own:
  "map_of (methods node) (Request.method request) = None \<Longrightarrow>
   dispatch node auth request callback =
     (case node of
        Inherited name \<Rightarrow> ([], Some TypeError)
      | ServiceNode ms cs \<Rightarrow>
          if Request.method request \<in> set object_prototype_keys then ([], Some TypeError)
          else if Request.method request = ''OPTIONS''
          then invoke_callback callback (JNum 200, options, Body (JObj []))
          else invoke_callback callback (JNum 404, options, Body (JObj [])))"
  by (cases node) (simp_all add: dispatch_def get_property_def)

lemma returnError_TypeError:
  "returnError request callback TypeError
     = invoke_callback callback
         (JNum 500, options,
          ErrorBody request ''Cannot read properties of null or undefined'' JNull)"
  by (simp add: returnError_def getError_def TypeError_def newHttpError_def)

lemma returnError_once:
  "error \<noteq> Nullish \<Longrightarrow> callback = (\<lambda>c. None) \<Longrightarrow>
   \<exists>c. returnError request callback error = ([c], None)"
  by (cases error) (simp_all add: returnError_def getError_def invoke_callback_def)

text \<open>
  What the pipeline does achieve: when the response callback never throws and the
  handler of the resolved node (if there is one) settles, the callback is invoked exactly
  once.
\<close>

lemma handleRequest_once_when_settled:
  assumes cb: "callback = (\<lambda>c. None)"
    and h: "\<And>node handler.
              getQueryResult root (readParts (Request.path request)) 0 = Inr node \<Longrightarrow>
              map_of (methods node) (Request.method request) = Some handler \<Longrightarrow>
              settles (handler request auth)"
  shows "length (handleRequest root auth request callback) = 1"
proof (cases "getQueryResult root (readParts (Request.path request)) 0")
  case (Inl error)
  from getQueryResult_error [OF Inl] cb
  obtain c where "returnError request callback error = ([c], None)"
    using returnError_once by blast
  with Inl show ?thesis by (simp add: handleRequest_unfold try_catch_def)
next
  case (Inr node)
  show ?thesis
  proof (cases "map_of (methods node) (Request.method request)")
    case None
    have t: "returnError request (\<lambda>c. None) TypeError
        = ([(JNum 500, options,
             ErrorBody request ''Cannot read properties of null or undefined'' JNull)], None)"
      by (simp add: returnError_TypeError invoke_callback_def)
    from Inr cb show ?thesis
      by (simp add: handleRequest_unfold dispatch_not_own [OF None] invoke_callback_def
            try_catch_def t split: ServiceNode.splits)
  next
    case (Some handler)
    from h [OF Inr Some] have s: "settles (handler request auth)" .
    show ?thesis
    proof (cases "handler request auth")
      case (Throws error)
      with s have "error \<noteq> Nullish" by (simp add: settles_def)
      with cb obtain c where "returnError request callback error = ([c], None)"
        using returnError_once by blast
      with Inr Throws show ?thesis
        by (simp add: handleRequest_unfold dispatch_own [OF Some] try_catch_def)
    next
      case (Returns promise)
      show ?thesis
      proof (cases promise)
        case Pending
        with s Returns show ?thesis by (simp add: settles_def)
      next
        case (Fulfilled response)
        with Inr Returns cb show ?thesis
          by (simp add: handleRequest_unfold dispatch_own [OF Some] then_catch_def
                returnResponse_def invoke_callback_def try_catch_def)
      next
        case (Rejected error)
        with s Returns have "error \<noteq> Nullish" by (simp add: settles_def)
        with cb obtain c where "returnError request callback error = ([c], None)"
          using returnError_once by blast
        with Inr Returns Rejected show ?thesis
          by (simp add: handleRequest_unfold dispatch_own [OF Some] then_catch_def try_catch_def)
      qed
    qed
  qed
qed

text \<open>Resolution of the example paths, used where a theorem is applied to an example.\<close>

lemma resolve_foo: "getQueryResult foo_tree [''foo''] 0 = Inr (json (JNum 1) [])"
  by (simp add: getQueryResult.simps elem_key_def invoke_def get_property_def foo_tree_def
        directory_def httpNode_def json_def)

lemma resolve_created:
  "getQueryResult created_tree [''foo''] 0
     = Inr (httpPost (\<lambda>request auth. Returns (Fulfilled
            \<lparr>Response.statusCode = 201,
             Response.headers = [(''Content-Type'', JStr ''text/plain''), (''X-Id'', JStr ''7'')],
             Response.body = JStr ''made''\<rparr>)))"
  by (simp add: getQueryResult.simps elem_key_def invoke_def get_property_def created_tree_def
        directory_def httpNode_def httpPost_def)

section \<open>What holds on own keys\<close>

text \<open>
  Resolution agrees with the specification's descent wherever that descent reaches a
  node, and on every path none of whose segments names a member of \<open>Object.prototype\<close>;
  a segment that is neither an own key of the children reached nor such a name is
  answered by the 404 error that names it and lists the own keys; a node without children
  is answered by the other 404 error.
\<close>

lemma getQueryResult_on_own_segments:
  "getQueryResult node [] 0 = Inr node
   \<and> (resolve_spec node paths = Some n \<longrightarrow> getQueryResult node paths 0 = Inr n)
   \<and> (set paths \<inter> set object_prototype_keys = {}
      \<longrightarrow> (getQueryResult node paths 0 = Inr n) = (resolve_spec node paths = Some n))
   \<and> (i < length paths \<and> resolve_spec node (take i paths) = Some cur
        \<and> children cur = Some cs \<and> map_of cs (paths ! i) = None
        \<and> paths ! i \<notin> set object_prototype_keys
      \<longrightarrow> getQueryResult node paths 0 = Inl (notFound (paths ! i) (map fst cs)))
   \<and> (i < length paths \<and> resolve_spec node (take i paths) = Some cur \<and> children cur = None
      \<longrightarrow> getQueryResult node paths 0 = Inl missingChildren)"
proof -
  have a: "getQueryResult node [] 0 = Inr node"
    using getQueryResult_end [of node "[]"] by simp
  have b: "getQueryResult node paths 0 = Inr n" if "resolve_spec node paths = Some n"
    using getQueryResult_walk [OF that, of "[]"] by simp
  have b': "resolve_spec node paths = Some n"
    if "set paths \<inter> set object_prototype_keys = {}" "getQueryResult node paths 0 = Inr n"
    using getQueryResult_walk_back [of paths node "[]" n] that by simp
  have fail: "getQueryResult node paths 0 = Inl e"
    if "i < length paths" "resolve_spec node (take i paths) = Some cur"
       "invoke cur (paths ! i) = Inl e"
    for e
  proof -
    from that(1) have "paths = take i paths @ paths ! i # drop (Suc i) paths"
      by (rule id_take_nth_drop)
    with getQueryResult_fail [OF that(2,3), of "[]" "drop (Suc i) paths"]
    show ?thesis by simp
  qed
  have c: "getQueryResult node paths 0 = Inl (notFound (paths ! i) (map fst cs))"
    if "i < length paths" "resolve_spec node (take i paths) = Some cur"
       "children cur = Some cs" "map_of cs (paths ! i) = None"
       "paths ! i \<notin> set object_prototype_keys"
    using fail [OF that(1,2)] that(3,4,5) by (simp add: invoke_cases get_property_absent)
  have d: "getQueryResult node paths 0 = Inl missingChildren"
    if "i < length paths" "resolve_spec node (take i paths) = Some cur" "children cur = None"
    using fail [OF that(1,2)] that(3) by (simp add: invoke_cases)
  from a b b' c d show ?thesis by blast
qed

text \<open>
  A node without a handler of its own for a verb that is not a name of
  \<open>Object.prototype\<close> answers 200 to \<open>OPTIONS\<close> and 404 to any other verb, with the fixed
  headers and an empty body.
\<close>

lemma handleRequest_no_handler_own_verb:
  "getQueryResult root (readParts (Request.path request)) 0 = Inr (ServiceNode ms cs) \<Longrightarrow>
   map_of ms (Request.method request) = None \<Longrightarrow>
   Request.method request \<notin> set object_prototype_keys \<Longrightarrow>
   handleRequest root auth request callback
     = (JNum (if Request.method request = ''OPTIONS'' then 200 else 404), options, Body (JObj []))
       # (case callback
                 (JNum (if Request.method request = ''OPTIONS'' then 200 else 404), options,
                  Body (JObj [])) of
            None \<Rightarrow> []
          | Some error \<Rightarrow> fst (returnError request callback error))"
  by (auto simp: handleRequest_unfold dispatch_def get_property_def invoke_callback_def
        try_catch_def split: option.splits prod.splits)

text \<open>
  The leaf parsers on well-formed input: \<open>readValues\<close> gives back the pairs of a query
  string written from plain keys and values, the keys distinct and none of them
  \<open>__proto__\<close>.
\<close>

lemma leaf_parsers_on_plain_pairs:
  "(CHR ''?'' \<notin> set str
      \<longrightarrow> parsePath str = \<lparr>ParsedPath.path = str, ParsedPath.query = None\<rparr>)
   \<and> (CHR ''?'' \<notin> set a
      \<longrightarrow> parsePath (a @ CHR ''?'' # q)
            = \<lparr>ParsedPath.path = a, ParsedPath.query = Some (readValues q)\<rparr>)
   \<and> readValues [] = []
   \<and> ((\<forall>(k, v) \<in> set pairs. plain k \<and> plain v \<and> k \<noteq> ''__proto__'')
        \<and> distinct (map fst pairs)
      \<longrightarrow> readValues (render_query pairs) = map (\<lambda>(k, v). (k, JStr v)) pairs)
   \<and> readValues ''a=1&b=2&c=8'' = [(''a'', JStr ''1''), (''b'', JStr ''2''), (''c'', JStr ''8'')]
   \<and> readParts (Some (CHR ''/'' # rest)) = split_str CHR ''/'' rest
   \<and> join_str ''/'' (split_str CHR ''/'' rest) = rest
   \<and> (\<forall>seg \<in> set (split_str CHR ''/'' rest). CHR ''/'' \<notin> set seg)
   \<and> readParts (Some []) = []
   \<and> readParts None = []"
proof (intro conjI impI ballI)
  show "readValues ''a=1&b=2&c=8''
          = [(''a'', JStr ''1''), (''b'', JStr ''2''), (''c'', JStr ''8'')]"
    by (simp add: readValues_def elem_key_def elem_val_def set_property_other)
  show "readValues [] = []" "readParts (Some []) = []" "readParts None = []"
    by (simp_all add: readValues_def readParts_def)
  show "parsePath str = \<lparr>ParsedPath.path = str, ParsedPath.query = None\<rparr>"
    if "CHR ''?'' \<notin> set str"
    using that by (rule parsePath_no_query)
  show "parsePath (a @ CHR ''?'' # q)
          = \<lparr>ParsedPath.path = a, ParsedPath.query = Some (readValues q)\<rparr>"
    if "CHR ''?'' \<notin> set a"
    using that by (rule parsePath_query)
  show "readValues (render_query pairs) = map (\<lambda>(k, v). (k, JStr v)) pairs"
    if "(\<forall>(k, v) \<in> set pairs. plain k \<and> plain v \<and> k \<noteq> ''__proto__'')
        \<and> distinct (map fst pairs)"
    using that readValues_render_query [of pairs] by blast
  show "readParts (Some (CHR ''/'' # rest)) = split_str CHR ''/'' rest"
    by (rule readParts_Cons)
  show "join_str ''/'' (split_str CHR ''/'' rest) = rest"
    by (rule join_split_str)
  show "CHR ''/'' \<notin> set seg" if "seg \<in> set (split_str CHR ''/'' rest)" for seg
    using that by (rule split_str_no_sep)
qed

section \<open>The claims\<close>

text \<open>
  C1. The specification asks that one call of \<open>handleRequest\<close> invokes the response
  callback exactly once on every path, the rejected handler promise included. The code
  does not: a handler whose promise rejects with \<open>null\<close> or \<open>undefined\<close> makes
  \<open>getError\<close> throw inside the \<open>catch\<close> handler, and the callback is never invoked; and a
  callback that throws on the missing-handler \<open>OPTIONS\<close> path is caught by the \<open>try\<close>
  block and invoked a second time by \<open>returnError\<close>.
\<close>

theorem handleRequest_callback_not_once:
  "handleRequest rejecting_tree (Returns (Fulfilled ())) (request_of ''GET'' []) never_throws = []
   \<and> handleRequest rejecting_tree (Returns (Fulfilled ())) (request_of ''OPTIONS'' [])
        (\<lambda>c. Some boom)
      = [(JNum 200, options, Body (JObj [])),
         (JNum 500, options, ErrorBody (request_of ''OPTIONS'' []) ''boom'' JNull)]"
  by (simp add: handleRequest_def readParts_def getQueryResult.simps dispatch_def
        get_property_def object_prototype_keys_def then_catch_def try_catch_def returnError_def
        getError_def newHttpError_def invoke_callback_def rejecting_tree_def httpGet_def
        httpNode_def request_of_def never_throws_def boom_def)

text \<open>
  C2, as the specification states it: the query suffix of the request path is split off
  before segmenting. It fails on the code, which never calls \<open>parsePath\<close>: for the path
  \<open>/foo?x=1\<close> the only segment is \<open>foo?x=1\<close>, where \<open>parsePath\<close> followed by \<open>readParts\<close>
  would give \<open>foo\<close>, and a tree with the child \<open>foo\<close> answers 404 where the path \<open>/foo\<close>
  is answered by the handler.
\<close>

theorem handleRequest_query_suffix_counterexample:
  "readParts (Request.path (request_of ''GET'' ''/foo?x=1'')) = [''foo?x=1'']
   \<and> readParts (Some (ParsedPath.path (parsePath ''/foo?x=1''))) = [''foo'']
   \<and> handleRequest foo_tree (Returns (Fulfilled ())) (request_of ''GET'' ''/foo?x=1'') never_throws
       = [(JNum 404, options,
           ErrorBody (request_of ''GET'' ''/foo?x=1'')
             ''Resource not found: foo?x=1. Did you mean foo?'' JNull)]
   \<and> handleRequest foo_tree (Returns (Fulfilled ())) (request_of ''GET'' ''/foo'') never_throws
       = [(JNum 200, options, Body (JNum 1))]"
  by (simp add: handleRequest_def readParts_def substr_from_def getQueryResult.simps
        elem_key_def invoke_def get_property_def object_prototype_keys_def dispatch_def
        then_catch_def try_catch_def returnError_def
        returnResponse_def getError_def newHttpError_def invoke_callback_def foo_tree_def
        directory_def httpNode_def json_def request_of_def never_throws_def spread_def
        parsePath_def substr_def options_def)

text \<open>
  C2, amended: \<open>handleRequest\<close> segments the request path with \<open>readParts\<close> alone. For a
  path that is not empty, the segments used for resolution are the path without its first
  character, split at every \<open>/\<close>; joined by \<open>/\<close> they give that remainder back, so nothing
  of a query suffix is removed, and a \<open>?\<close> after the first character is in one of the
  segments.
\<close>

theorem handleRequest_segments_whole_path:
  "Request.path request = Some (c # rest) \<Longrightarrow>
     handleRequest root auth request callback =
       fst (try_catch
              (case getQueryResult root (split_str CHR ''/'' rest) 0 of
                 Inl error \<Rightarrow> ([], Some error)
               | Inr node \<Rightarrow> dispatch node auth request callback)
              (returnError request callback))
     \<and> join_str ''/'' (split_str CHR ''/'' rest) = rest
     \<and> (CHR ''?'' \<in> set rest \<longrightarrow> (\<exists>seg \<in> set (split_str CHR ''/'' rest). CHR ''?'' \<in> set seg))"
proof -
  assume p: "Request.path request = Some (c # rest)"
  have j: "join_str ''/'' (split_str CHR ''/'' rest) = rest"
    by (rule join_split_str)
  have "\<exists>seg \<in> set (split_str CHR ''/'' rest). CHR ''?'' \<in> set seg" if "CHR ''?'' \<in> set rest"
  proof -
    from that j have "CHR ''?'' \<in> set (join_str ''/'' (split_str CHR ''/'' rest))" by simp
    with set_join_str [of "''/''" "split_str CHR ''/'' rest"] show ?thesis by auto
  qed
  with j p show ?thesis by (simp add: handleRequest_unfold readParts_Cons)
qed

theorem handleRequest_segments_whole_path_witness:
  "Request.path (request_of ''GET'' ''/foo?x=1'') = Some ''/foo?x=1''
   \<and> CHR ''?'' \<in> set ''foo?x=1''
   \<and> handleRequest foo_tree (Returns (Fulfilled ())) (request_of ''GET'' ''/foo?x=1'') never_throws
       = fst (try_catch
                (case getQueryResult foo_tree [''foo?x=1''] 0 of
                   Inl error \<Rightarrow> ([], Some error)
                 | Inr node \<Rightarrow>
                     dispatch node (Returns (Fulfilled ())) (request_of ''GET'' ''/foo?x=1'')
                       never_throws)
                (returnError (request_of ''GET'' ''/foo?x=1'') never_throws))
   \<and> join_str ''/'' [''foo?x=1''] = ''foo?x=1''
   \<and> (\<exists>seg \<in> set [''foo?x=1'']. CHR ''?'' \<in> set seg)"
proof -
  have p: "Request.path (request_of ''GET'' ''/foo?x=1'') = Some (CHR ''/'' # ''foo?x=1'')"
    by (simp add: request_of_def)
  have s: "split_str CHR ''/'' ''foo?x=1'' = [''foo?x=1'']" by simp
  from handleRequest_segments_whole_path
    [OF p, of foo_tree "Returns (Fulfilled ())" never_throws]
  show ?thesis using p by (simp only: s) simp
qed

text \<open>
  C3. The specification asks that resolution returns the node reached by child lookup and
  throws the \<open>HttpError\<close> with status 404 that names the segment when a segment is absent
  from the children of the node reached. The code does not for a segment that names a
  member of \<open>Object.prototype\<close>: on the tree whose root has the one child \<open>foo\<close>, the
  segment \<open>constructor\<close> is no child, yet \<open>node.children[tag]\<close> finds the inherited member,
  \<open>invoke\<close> returns it as if it were a node and nothing is thrown; \<open>handleRequest\<close> then
  fails on the missing \<open>methods\<close> of that value and answers 500 where 404 is due.
\<close>

theorem getQueryResult_inherited_segment:
  "resolve_spec foo_tree [''constructor''] = None
   \<and> getQueryResult foo_tree [''constructor''] 0 = Inr (Inherited ''constructor'')
   \<and> (\<exists>msg. handleRequest foo_tree (Returns (Fulfilled ())) (request_of ''GET'' ''/constructor'')
               never_throws
             = [(JNum 500, options, ErrorBody (request_of ''GET'' ''/constructor'') msg JNull)])"
  by (simp add: handleRequest_def readParts_def substr_from_def getQueryResult.simps
        elem_key_def invoke_def get_property_def object_prototype_keys_def dispatch_def
        try_catch_def returnError_def getError_def TypeError_def newHttpError_def
        invoke_callback_def foo_tree_def directory_def httpNode_def json_def request_of_def
        never_throws_def)

text \<open>
  C4, as the specification states it: an error that carries a numeric status code is
  wrapped with that code, its message and its body preserved. It fails on the code for
  the status code 0, which \<open>if (e.statusCode)\<close> takes for no status code: the error is
  delivered as status 500 and its body is dropped.
\<close>

theorem getError_zero_status_counterexample:
  "getError (OtherValue (JNum 0) (Some ''boom'') (JStr ''detail''))
     = Inr \<lparr>HttpError.statusCode = JNum 500, HttpError.message = ''boom'',
            HttpError.body = JNull\<rparr>
   \<and> returnError (request_of ''GET'' ''/'') never_throws
        (OtherValue (JNum 0) (Some ''boom'') (JStr ''detail''))
     = ([(JNum 500, options, ErrorBody (request_of ''GET'' ''/'') ''boom'' JNull)], None)"
  by (simp add: returnError_def getError_def newHttpError_def invoke_callback_def
        never_throws_def)

text \<open>
  C4, amended: for a thrown or rejected value other than \<open>null\<close> and \<open>undefined\<close>, the
  error path normalises it to an \<open>HttpError\<close>: an instance of \<open>HttpError\<close> passes through
  unchanged; any other value whose status-code field is truthy (a number other than 0,
  for instance) is wrapped with that code, its message (the empty message if it has none)
  and its body field (\<open>null\<close> if it has none); anything else, status code 0 included, is
  wrapped as status 500 with its message and body \<open>null\<close>. The callback is then invoked
  with the status code of the normalised error, the fixed headers, and a body made of the
  original request, the error message and the error body.
\<close>

theorem returnError_normalizes:
  "getError (IsHttpError e) = Inr e
   \<and> (truthy code \<longrightarrow>
        getError (OtherValue code msg b)
          = Inr \<lparr>HttpError.statusCode = code,
                 HttpError.message = (case msg of None \<Rightarrow> [] | Some m \<Rightarrow> m),
                 HttpError.body = (if b = JUndefined then JNull else b)\<rparr>)
   \<and> (\<not> truthy code \<longrightarrow>
        getError (OtherValue code msg b)
          = Inr \<lparr>HttpError.statusCode = JNum 500,
                 HttpError.message = (case msg of None \<Rightarrow> [] | Some m \<Rightarrow> m),
                 HttpError.body = JNull\<rparr>)
   \<and> (error \<noteq> Nullish \<longrightarrow>
        (\<exists>httpError. getError error = Inr httpError
           \<and> returnError request callback error
               = ([(HttpError.statusCode httpError, options,
                    ErrorBody request (HttpError.message httpError) (HttpError.body httpError))],
                  callback (HttpError.statusCode httpError, options,
                    ErrorBody request (HttpError.message httpError)
                      (HttpError.body httpError)))))"
  by (cases error) (simp_all add: getError_def newHttpError_def returnError_def invoke_callback_def)

theorem returnError_normalizes_witness:
  "truthy (JNum 403) \<and> \<not> truthy JUndefined \<and> boom \<noteq> Nullish
   \<and> getError (OtherValue (JNum 403) (Some ''no'') (JStr ''why''))
       = Inr \<lparr>HttpError.statusCode = JNum 403, HttpError.message = ''no'',
              HttpError.body = JStr ''why''\<rparr>
   \<and> getError boom
       = Inr \<lparr>HttpError.statusCode = JNum 500, HttpError.message = ''boom'',
              HttpError.body = JNull\<rparr>
   \<and> returnError (request_of ''GET'' ''/'') never_throws boom
       = ([(JNum 500, options, ErrorBody (request_of ''GET'' ''/'') ''boom'' JNull)], None)"
  using
    returnError_normalizes
      [of "\<lparr>HttpError.statusCode = JNum 404, HttpError.message = [], HttpError.body = JNull\<rparr>"
          "JNum 403" "Some ''no''" "JStr ''why''" boom "request_of ''GET'' ''/''" never_throws]
    returnError_normalizes
      [of "\<lparr>HttpError.statusCode = JNum 404, HttpError.message = [], HttpError.body = JNull\<rparr>"
          JUndefined "Some ''boom''" JUndefined boom "request_of ''GET'' ''/''" never_throws]
  by (auto simp: boom_def never_throws_def)

text \<open>
  C5. On handler success the callback is invoked with status 200 whatever status code the
  handler's response carries, with the fixed headers overlaid by the headers of the
  response (the handler's entry wins where a key is in both), and with the body of the
  response unchanged. That is the only invocation unless the callback itself throws.
\<close>

theorem returnResponse_delivery:
  "getQueryResult root (readParts (Request.path request)) 0 = Inr node \<Longrightarrow>
   map_of (methods node) (Request.method request) = Some handler \<Longrightarrow>
   handler request auth = Returns (Fulfilled response) \<Longrightarrow>
   distinct (map fst (Response.headers response)) \<Longrightarrow>
   handleRequest root auth request callback
     = (JNum 200, spread options (Response.headers response), Body (Response.body response))
       # (case callback
                 (JNum 200, spread options (Response.headers response),
                  Body (Response.body response)) of
            None \<Rightarrow> []
          | Some error \<Rightarrow> fst (returnError request callback error))
   \<and> map_of (spread options (Response.headers response))
       = map_of options ++ map_of (Response.headers response)"
  by (auto simp: handleRequest_unfold dispatch_own then_catch_def returnResponse_def
        invoke_callback_def try_catch_def spread_options map_of_spread
        split: option.splits prod.splits)

theorem returnResponse_delivery_witness:
  "handleRequest created_tree (Returns (Fulfilled ())) (request_of ''POST'' ''/foo'') never_throws
     = [(JNum 200,
         [(''Access-Control-Allow-Origin'', JStr ''*''),
          (''Access-Control-Allow-Headers'', JStr ''Authorization, Content-Type, Auth-Provider''),
          (''Access-Control-Allow-Methods'', JStr ''OPTIONS, GET, POST, PUT''),
          (''Content-Type'', JStr ''text/plain''),
          (''X-Id'', JStr ''7'')],
         Body (JStr ''made''))]"
proof -
  let ?response =
    "\<lparr>Response.statusCode = 201,
      Response.headers = [(''Content-Type'', JStr ''text/plain''), (''X-Id'', JStr ''7'')],
      Response.body = JStr ''made''\<rparr>"
  let ?handler = "\<lambda>(request :: Request) (auth :: unit accessor). Returns (Fulfilled ?response)"
  have r: "getQueryResult created_tree (readParts (Request.path (request_of ''POST'' ''/foo''))) 0
             = Inr (httpPost ?handler)"
    using resolve_created by (simp add: readParts_def substr_from_def request_of_def)
  have m: "map_of (methods (httpPost ?handler)) (Request.method (request_of ''POST'' ''/foo''))
             = Some ?handler"
    by (simp add: httpPost_def httpNode_def request_of_def)
  have h: "?handler (request_of ''POST'' ''/foo'') (Returns (Fulfilled ()))
             = Returns (Fulfilled ?response)"
    by simp
  have d: "distinct (map fst (Response.headers ?response))"
    by simp
  from returnResponse_delivery [OF r m h d, where callback = never_throws]
  show ?thesis by (simp add: never_throws_def spread_def options_def)
qed

text \<open>
  C6. The specification asks that a request resolving to a node with no handler for its
  verb is answered 200 for \<open>OPTIONS\<close> and 404 for any other verb, with the fixed headers and
  an empty body. The code does not for a verb that names a member of \<open>Object.prototype\<close>:
  the node at \<open>/foo\<close> has a handler for \<open>GET\<close> only, yet for the verb \<open>constructor\<close> the
  lookup \<open>node.methods[request.method]\<close> finds the inherited member, which is called as
  the handler; the call ends in a \<open>TypeError\<close> and the callback receives status 500 with
  an error body.
\<close>

theorem handleRequest_inherited_verb:
  "getQueryResult foo_tree (readParts (Request.path (request_of ''constructor'' ''/foo''))) 0
     = Inr (json (JNum 1) [])
   \<and> map_of (methods (json (JNum 1) [] :: unit ServiceNode))
        (Request.method (request_of ''constructor'' ''/foo'')) = None
   \<and> (\<exists>msg. handleRequest foo_tree (Returns (Fulfilled ())) (request_of ''constructor'' ''/foo'')
               never_throws
             = [(JNum 500, options, ErrorBody (request_of ''constructor'' ''/foo'') msg JNull)])"
  by (simp add: handleRequest_def readParts_def substr_from_def getQueryResult.simps
        elem_key_def invoke_def get_property_def object_prototype_keys_def dispatch_def
        try_catch_def returnError_def getError_def TypeError_def newHttpError_def
        invoke_callback_def foo_tree_def directory_def httpNode_def json_def request_of_def
        never_throws_def)

text \<open>
  C7. \<open>getRequestData\<close> returns the parsed query mapping of the request for the methods
  \<open>GET\<close> and \<open>DELETE\<close>. For every other method it returns what \<open>JSON.parse\<close> makes of the
  body when the body is not empty, and a falsy value when the body is empty or missing:
  never an error.
\<close>

theorem getRequestData_policy:
  "(Request.method request = ''GET'' \<or> Request.method request = ''DELETE''
      \<longrightarrow> getRequestData JSON_parse request = Inr (Request.query request))
   \<and> (Request.method request \<noteq> ''GET'' \<and> Request.method request \<noteq> ''DELETE''
        \<and> Request.body request = Some b \<and> b \<noteq> []
      \<longrightarrow> getRequestData JSON_parse request = JSON_parse b)
   \<and> (Request.method request \<noteq> ''GET'' \<and> Request.method request \<noteq> ''DELETE''
        \<and> (Request.body request = None \<or> Request.body request = Some [])
      \<longrightarrow> (\<exists>absent. getRequestData JSON_parse request = Inr absent \<and> \<not> truthy absent))"
  by (auto simp: getRequestData_def)

theorem getRequestData_policy_witness:
  "getRequestData (\<lambda>s. Inr (JObj [])) ((request_of ''GET'' ''/foo'')\<lparr>Request.query := JObj [(''x'', JStr ''1'')]\<rparr>)
     = Inr (JObj [(''x'', JStr ''1'')])
   \<and> getRequestData (\<lambda>s. Inr (JObj [])) ((request_of ''POST'' ''/foo'')\<lparr>Request.body := Some ''{}''\<rparr>)
     = Inr (JObj [])
   \<and> (\<exists>absent. getRequestData (\<lambda>s. Inl boom) (request_of ''PUT'' ''/foo'') = Inr absent
         \<and> \<not> truthy absent)"
  using
    getRequestData_policy
      [of "(request_of ''GET'' ''/foo'')\<lparr>Request.query := JObj [(''x'', JStr ''1'')]\<rparr>"
          "\<lambda>s. Inr (JObj [])" "''{}''"]
    getRequestData_policy
      [of "(request_of ''POST'' ''/foo'')\<lparr>Request.body := Some ''{}''\<rparr>"
          "\<lambda>s. Inr (JObj [])" "''{}''"]
    getRequestData_policy [of "request_of ''PUT'' ''/foo''" "\<lambda>s. Inl boom" "''{}''"]
  by (simp add: request_of_def)

text \<open>
  C8. The handler that \<open>authenticate\<close> returns first awaits the authentication accessor,
  then awaits the wrapped handler on the user and the request, and resolves with a
  response of status 200, no headers and the result of the wrapped handler as body. When
  the accessor rejects, the wrapped handler is never invoked and the rejection is the
  wrapper's, unchanged; a rejection of the wrapped handler is passed on unchanged too.
  The wrapped handler is invoked only with the user the accessor resolved to.
\<close>

theorem authenticate_contract:
  "(auth = Returns (Fulfilled user) \<and> handler user request = Returns (Fulfilled result)
      \<longrightarrow> authenticate handler request auth
            = ([(user, request)],
               Fulfilled \<lparr>Response.statusCode = 200, Response.headers = [],
                          Response.body = result\<rparr>))
   \<and> (auth = Returns (Rejected error)
      \<longrightarrow> authenticate handler request auth = ([], Rejected error))
   \<and> (auth = Returns (Fulfilled user) \<and> handler user request = Returns (Rejected error)
      \<longrightarrow> authenticate handler request auth = ([(user, request)], Rejected error))
   \<and> (\<forall>call \<in> set (fst (authenticate handler request auth)).
         auth = Returns (Fulfilled (fst call)) \<and> snd call = request)"
  by (auto simp: authenticate_def split: outcome.splits promise.splits)

theorem authenticate_contract_witness:
  "authenticate (\<lambda>user request. Returns (Fulfilled (JNum user))) (request_of ''GET'' ''/me'')
       (Returns (Fulfilled 5))
     = ([(5, request_of ''GET'' ''/me'')],
        Fulfilled \<lparr>Response.statusCode = 200, Response.headers = [],
                   Response.body = JNum 5\<rparr>)
   \<and> authenticate (\<lambda>user request. Returns (Fulfilled (JNum user))) (request_of ''GET'' ''/me'')
       (Returns (Rejected boom))
     = ([], Rejected boom)
   \<and> authenticate (\<lambda>user request. Returns (Rejected boom)) (request_of ''GET'' ''/me'')
       (Returns (Fulfilled (5 :: int)))
     = ([(5, request_of ''GET'' ''/me'')], Rejected boom)"
  using
    authenticate_contract
      [of "Returns (Fulfilled 5)" 5 "\<lambda>user request. Returns (Fulfilled (JNum user))"
          "request_of ''GET'' ''/me''" "JNum 5" boom]
    authenticate_contract
      [of "Returns (Rejected boom)" 5 "\<lambda>user request. Returns (Fulfilled (JNum user))"
          "request_of ''GET'' ''/me''" "JNum 5" boom]
    authenticate_contract
      [of "Returns (Fulfilled (5 :: int))" 5 "\<lambda>user request. Returns (Rejected boom)"
          "request_of ''GET'' ''/me''" "JNum 5" boom]
  by simp

text \<open>
  C9. The specification asks that the query suffix is parsed as \<open>key=value\<close> pairs
  separated by \<open>&\<close> into the mapping from each key to its raw value string. The code does
  not for the key \<open>__proto__\<close>, whose assignment \<open>values[keys[0]] = keys[1]\<close> reaches the
  setter of \<open>Object.prototype\<close> and stores nothing, nor for a value that contains \<open>=\<close>,
  of which only the part before that \<open>=\<close> is kept (\<open>split\<close> cuts at every \<open>=\<close> and only
  the first two pieces are read); \<open>parsePath\<close> hands such a suffix to \<open>readValues\<close> as it
  is.
\<close>

theorem readValues_loses_pairs:
  "readValues ''__proto__=1'' = []
   \<and> readValues ''a=1&__proto__=2'' = [(''a'', JStr ''1'')]
   \<and> readValues ''token=abc=='' = [(''token'', JStr ''abc'')]
   \<and> parsePath ''/p?token=abc==''
       = \<lparr>ParsedPath.path = ''/p'', ParsedPath.query = Some [(''token'', JStr ''abc'')]\<rparr>"
  by (simp add: parsePath_def substr_def substr_from_def readValues_def elem_key_def
        elem_val_def set_property_other set_property_proto)


end
